theory Spec2Isabelle
  imports Complex_Main
begin

unbundle bit_operations_syntax

section \<open>The TM1637 driver of \<^verbatim>\<open>src/release/main.py\<close>\<close>

text \<open>
  A display object holds the identifiers of its two pins and a brightness level. Every
  method is a state transformer on the object that also returns the pin operations and
  microsecond delays it performs, in program order. Python integers are \<open>int\<close>;
  \<open>b >> i\<close> is \<open>drop_bit i b\<close> (both round towards minus infinity).
\<close>

record tm1637 =
  clk :: nat
  dio :: nat
  brightness :: int

datatype pin_event = PinValue nat int | SleepUs nat

type_synonym action = "tm1637 \<Rightarrow> tm1637 \<times> pin_event list"

definition clk_value :: "int \<Rightarrow> action" where
  "clk_value v self = (self, [PinValue (clk self) v])"

definition dio_value :: "int \<Rightarrow> action" where
  "dio_value v self = (self, [PinValue (dio self) v])"

definition sleep_us :: "nat \<Rightarrow> action" where
  "sleep_us n self = (self, [SleepUs n])"

text \<open>Statements in sequence: each runs on the object the previous one left.\<close>

fun run_seq :: "action list \<Rightarrow> action" where
  "run_seq [] self = (self, [])"
| "run_seq (stmt # stmts) self =
     (case stmt self of (self1, es1) \<Rightarrow>
        (case run_seq stmts self1 of (self2, es2) \<Rightarrow> (self2, es1 @ es2)))"

definition start :: action where
  "start = run_seq [dio_value 0, sleep_us 2]"

definition stop :: action where
  "stop = run_seq [dio_value 0, sleep_us 2, clk_value 1, sleep_us 2, dio_value 1]"

definition write_bit :: "int \<Rightarrow> nat \<Rightarrow> action list" where
  "write_bit b i =
     [clk_value 0, sleep_us 2, dio_value (drop_bit i b AND 1), sleep_us 2,
      clk_value 1, sleep_us 2]"

definition write_byte :: "int \<Rightarrow> action" where
  "write_byte b =
     run_seq (concat (map (write_bit b) [0..<8]) @
       [clk_value 0, sleep_us 2, clk_value 1, sleep_us 2, clk_value 0, sleep_us 2])"

definition "write" :: "int list \<Rightarrow> action" where
  "write segments =
     run_seq ([start, write_byte 64, stop,
               start, write_byte 192] @ map write_byte segments @ [stop,
               start, (\<lambda>self. write_byte (136 OR brightness self) self), stop])"

text \<open>The command bytes are \<open>0x40 = 64\<close>, \<open>0xC0 = 192\<close> and \<open>0x88 = 136\<close>.\<close>

text \<open>
  Reading a trace: the rising edges of one pin, from a given initial level, and the
  values written to one pin.
\<close>

fun rising_edges :: "nat \<Rightarrow> int \<Rightarrow> pin_event list \<Rightarrow> nat" where
  "rising_edges p lvl [] = 0"
| "rising_edges p lvl (PinValue q v # es) =
     (if q = p then (if lvl = 0 \<and> v \<noteq> 0 then 1 else 0) + rising_edges p v es
      else rising_edges p lvl es)"
| "rising_edges p lvl (SleepUs n # es) = rising_edges p lvl es"

fun values_on :: "nat \<Rightarrow> pin_event list \<Rightarrow> int list" where
  "values_on p [] = []"
| "values_on p (PinValue q v # es) = (if q = p then v # values_on p es else values_on p es)"
| "values_on p (SleepUs n # es) = values_on p es"

text \<open>The pin operations of one data bit and of the closing clock pulse, written out.\<close>

definition bit_cycle :: "tm1637 \<Rightarrow> int \<Rightarrow> pin_event list" where
  "bit_cycle self v =
     [PinValue (clk self) 0, SleepUs 2, PinValue (dio self) v, SleepUs 2,
      PinValue (clk self) 1, SleepUs 2]"

definition ack_pulse :: "tm1637 \<Rightarrow> pin_event list" where
  "ack_pulse self =
     [PinValue (clk self) 0, SleepUs 2, PinValue (clk self) 1, SleepUs 2,
      PinValue (clk self) 0, SleepUs 2]"

definition start_events :: "tm1637 \<Rightarrow> pin_event list" where
  "start_events self = [PinValue (dio self) 0, SleepUs 2]"

definition stop_events :: "tm1637 \<Rightarrow> pin_event list" where
  "stop_events self =
     [PinValue (dio self) 0, SleepUs 2, PinValue (clk self) 1, SleepUs 2,
      PinValue (dio self) 1]"

definition byte_events :: "tm1637 \<Rightarrow> int \<Rightarrow> pin_event list" where
  "byte_events self b =
     concat (map (\<lambda>i. bit_cycle self ((b div 2 ^ i) mod 2)) [0..<8]) @ ack_pulse self"

definition lsb_value :: "int list \<Rightarrow> int" where
  "lsb_value vs = foldr (\<lambda>v acc. v + 2 * acc) vs 0"

section \<open>Segment tables and rendering\<close>

text \<open>
  \<open>DIGITS = [0x3F, 0x06, 0x5B, 0x4F, 0x66, 0x6D, 0x7D, 0x07, 0x7F, 0x6F]\<close>,
  \<open>DEGREE = 0x63\<close>, \<open>C = 0x39\<close>, \<open>DASH = 0x40\<close>, \<open>E = 0x79\<close>.
\<close>

definition DIGITS :: "int list" where
  "DIGITS = [63, 6, 91, 79, 102, 109, 125, 7, 127, 111]"

definition DEGREE :: int where "DEGREE = 99"
definition C :: int where "C = 57"
definition DASH :: int where "DASH = 64"
definition E :: int where "E = 121"

definition cpu_display :: tm1637 where
  "cpu_display = \<lparr>clk = 0, dio = 1, brightness = 7\<rparr>"

definition gpu_display :: tm1637 where
  "gpu_display = \<lparr>clk = 2, dio = 3, brightness = 7\<rparr>"

text \<open>
  The exceptions the program can raise; all three are subclasses of \<open>Exception\<close>.
\<close>

datatype error = ValueError | IndexError | OverflowError

text \<open>
  List subscription as Python does it: a negative index counts from the end, anything
  outside raises \<open>IndexError\<close>.
\<close>

definition getitem :: "'a list \<Rightarrow> int \<Rightarrow> error + 'a" where
  "getitem xs i =
     (if 0 \<le> i \<and> i < int (length xs) then Inr (xs ! nat i)
      else if - int (length xs) \<le> i \<and> i < 0 then Inr (xs ! nat (int (length xs) + i))
      else Inl IndexError)"

text \<open>
  A float is the real number it denotes, or one of the three special values. The only
  operations the program applies to a temperature are comparisons with the integers
  0, 100 and 999 and \<open>round\<close>, and all of them are exact on the denoted number.
  \<open>round\<close> with one argument returns an integer, rounding halves to the even
  neighbour; it raises \<open>ValueError\<close> on NaN and \<open>OverflowError\<close> on an infinity.
\<close>

datatype pyfloat = Finite real | PosInf | NegInf | NaN

fun float_eq :: "pyfloat \<Rightarrow> real \<Rightarrow> bool" where
  "float_eq (Finite x) c = (x = c)"
| "float_eq _ c = False"

fun float_lt :: "pyfloat \<Rightarrow> real \<Rightarrow> bool" where
  "float_lt (Finite x) c = (x < c)"
| "float_lt NegInf c = True"
| "float_lt _ c = False"

fun float_gt :: "pyfloat \<Rightarrow> real \<Rightarrow> bool" where
  "float_gt (Finite x) c = (x > c)"
| "float_gt PosInf c = True"
| "float_gt _ c = False"

fun float_ge :: "pyfloat \<Rightarrow> real \<Rightarrow> bool" where
  "float_ge (Finite x) c = (x \<ge> c)"
| "float_ge PosInf c = True"
| "float_ge _ c = False"

definition round_half_even :: "real \<Rightarrow> int" where
  "round_half_even x =
     (let f = \<lfloor>x\<rfloor>; d = x - of_int f
      in if d < 1 / 2 then f else if d > 1 / 2 then f + 1
         else if even f then f else f + 1)"

fun py_round :: "pyfloat \<Rightarrow> error + int" where
  "py_round (Finite x) = Inr (round_half_even x)"
| "py_round NaN = Inl ValueError"
| "py_round _ = Inl OverflowError"

text \<open>
  What the program does above the driver: a call \<open>display.write(segments)\<close> is the event
  \<open>Write display segments\<close>, a call \<open>time.sleep(s)\<close> is \<open>Sleep s\<close>. A piece of code yields
  the events it performed and, when it raised, the exception. The \<open>print\<close> calls are
  left out. \<open>wire\<close> gives the pin operations behind a list of events.
\<close>

datatype event = Write tm1637 "int list" | Sleep real

type_synonym res = "event list \<times> error option"

definition ok :: "event list \<Rightarrow> res" where
  "ok es = (es, None)"

definition raise :: "error \<Rightarrow> res" where
  "raise e = ([], Some e)"

definition then_do :: "res \<Rightarrow> res \<Rightarrow> res" where
  "then_do r1 r2 =
     (case r1 of
        (es1, Some e) \<Rightarrow> (es1, Some e)
      | (es1, None) \<Rightarrow> (case r2 of (es2, x) \<Rightarrow> (es1 @ es2, x)))"

fun wire :: "event list \<Rightarrow> pin_event list" where
  "wire [] = []"
| "wire (Write display segments # es) = snd (write segments display) @ wire es"
| "wire (Sleep s # es) = wire es"

text \<open>
  A list display \<open>[a, b, c, d]\<close> evaluates its entries from left to right and the first
  one that raises ends it; \<open>display.write([a, b, c, d])\<close> runs only when all four have a
  value.
\<close>

fun build :: "(error + 'a) list \<Rightarrow> error + 'a list" where
  "build [] = Inr []"
| "build (Inl e # xs) = Inl e"
| "build (Inr v # xs) = (case build xs of Inl e \<Rightarrow> Inl e | Inr vs \<Rightarrow> Inr (v # vs))"

definition write_list :: "tm1637 \<Rightarrow> (error + int) list \<Rightarrow> res" where
  "write_list display items =
     (case build items of Inl e \<Rightarrow> raise e | Inr segments \<Rightarrow> ok [Write display segments])"

definition show_status :: "int \<Rightarrow> res" where
  "show_status code =
     (if code = 1 then
        then_do (write_list cpu_display [getitem DIGITS 1, Inr 0, Inr 0, Inr 0])
                (write_list gpu_display [getitem DIGITS 1, Inr 0, Inr 0, Inr 0])
      else if code = 2 then
        then_do (write_list cpu_display [getitem DIGITS 2, Inr 0, Inr 0, Inr 0])
                (write_list gpu_display [getitem DIGITS 2, Inr 0, Inr 0, Inr 0])
      else if code = 3 then
        then_do (write_list cpu_display [getitem DIGITS 3, Inr 0, Inr 0, Inr 0])
                (write_list gpu_display [getitem DIGITS 3, Inr 0, Inr 0, Inr 0])
      else ok [])"

definition show_error :: "int \<Rightarrow> res" where
  "show_error error_code =
     (let tens = error_code div 10; ones = error_code mod 10
      in then_do
           (write_list cpu_display [Inr E, Inr DASH, getitem DIGITS tens, getitem DIGITS ones])
           (write_list gpu_display [Inr E, Inr DASH, getitem DIGITS tens, getitem DIGITS ones]))"

definition display_temp :: "tm1637 \<Rightarrow> pyfloat \<Rightarrow> res" where
  "display_temp display temp =
     (if float_eq temp 0 then write_list display [Inr 0, Inr DASH, Inr DASH, Inr 0]
      else if float_lt temp 0 \<or> float_gt temp 999 then
        write_list display [Inr E, Inr DASH, Inr DASH, Inr DASH]
      else
        (case py_round temp of
           Inl e \<Rightarrow> raise e
         | Inr rounded \<Rightarrow>
             if float_ge temp 100 then
               (let temp_int = (if rounded > 999 then 999 else rounded);
                    hundreds = temp_int div 100;
                    tens = (temp_int mod 100) div 10;
                    ones = temp_int mod 10
                in write_list display
                     [getitem DIGITS hundreds, getitem DIGITS tens, getitem DIGITS ones, Inr 0])
             else
               (let tens = rounded div 10;
                    ones = rounded mod 10
                in write_list display
                     [Inr 0, if tens > 0 then getitem DIGITS tens else Inr 0,
                      getitem DIGITS ones, Inr C])))"

section \<open>The main loop\<close>

text \<open>
  The module-level variables the loop assigns, and what one iteration reads from outside:
  the line \<open>sys.stdin.readline().strip()\<close> when \<open>select\<close> reports input (\<open>None\<close> when it
  does not), and the two readings of \<open>time.time()\<close>, at the update and at the timeout
  check. The built-in \<open>float\<close> is a parameter: \<open>None\<close> is its \<open>ValueError\<close>.
\<close>

record loop_state =
  last_data_time :: real
  error_shown :: bool

record tick =
  poll :: "string option"
  t_update :: real
  t_check :: real

type_synonym stmt = "loop_state \<Rightarrow> loop_state \<times> event list \<times> error option"

definition lift :: "res \<Rightarrow> stmt" where
  "lift r st = (st, fst r, snd r)"

definition assign :: "(loop_state \<Rightarrow> loop_state) \<Rightarrow> stmt" where
  "assign f st = (f st, [], None)"

definition throw :: "error \<Rightarrow> stmt" where
  "throw e st = (st, [], Some e)"

fun seq :: "stmt list \<Rightarrow> stmt" where
  "seq [] st = (st, [], None)"
| "seq (s # ss) st =
     (case s st of
        (st1, es1, Some e) \<Rightarrow> (st1, es1, Some e)
      | (st1, es1, None) \<Rightarrow> (case seq ss st1 of (st2, es2, x) \<Rightarrow> (st2, es1 @ es2, x)))"

text \<open>
  \<open>try: body except <class>: handler\<close>: the handler runs in the state the body had
  reached when it raised, and only for the exceptions of the class.
\<close>

definition try_except :: "stmt \<Rightarrow> (error \<Rightarrow> bool) \<Rightarrow> stmt \<Rightarrow> stmt" where
  "try_except body catches handler st =
     (case body st of
        (st1, es1, Some e) \<Rightarrow>
          (if catches e then (case handler st1 of (st2, es2, x) \<Rightarrow> (st2, es1 @ es2, x))
           else (st1, es1, Some e))
      | (st1, es1, None) \<Rightarrow> (st1, es1, None))"

text \<open>\<open>line.split(',')\<close>: one more part than there are separators.\<close>

fun split_str :: "char \<Rightarrow> string \<Rightarrow> string list" where
  "split_str sep [] = [[]]"
| "split_str sep (c # cs) =
     (if c = sep then [] # split_str sep cs
      else (case split_str sep cs of p # ps \<Rightarrow> (c # p) # ps | [] \<Rightarrow> [[c]]))"

definition parse_field :: "(string \<Rightarrow> pyfloat option) \<Rightarrow> string list \<Rightarrow> int \<Rightarrow> error + pyfloat" where
  "parse_field pyfloat_of parts i =
     (case getitem parts i of
        Inl e \<Rightarrow> Inl e
      | Inr field \<Rightarrow> (case pyfloat_of field of None \<Rightarrow> Inl ValueError | Some v \<Rightarrow> Inr v))"

definition update :: "(string \<Rightarrow> pyfloat option) \<Rightarrow> tick \<Rightarrow> string list \<Rightarrow> stmt" where
  "update pyfloat_of tk parts =
     (case parse_field pyfloat_of parts 0 of
        Inl e \<Rightarrow> throw e
      | Inr cpu_temp \<Rightarrow>
          (case parse_field pyfloat_of parts 1 of
             Inl e \<Rightarrow> throw e
           | Inr gpu_temp \<Rightarrow>
               seq [lift (display_temp cpu_display cpu_temp),
                    lift (display_temp gpu_display gpu_temp),
                    assign (\<lambda>st. st\<lparr>last_data_time := t_update tk\<rparr>),
                    assign (\<lambda>st. st\<lparr>error_shown := False\<rparr>)]))"

definition handle_line :: "(string \<Rightarrow> pyfloat option) \<Rightarrow> tick \<Rightarrow> string \<Rightarrow> stmt" where
  "handle_line pyfloat_of tk line =
     (if CHR '','' \<in> set line then
        try_except (update pyfloat_of tk (split_str CHR '','' line))
          (\<lambda>e. e = ValueError)
          (seq [lift (show_error 10), assign (\<lambda>st. st\<lparr>error_shown := True\<rparr>)])
      else seq [lift (show_error 11), assign (\<lambda>st. st\<lparr>error_shown := True\<rparr>)])"

definition read_step :: "(string \<Rightarrow> pyfloat option) \<Rightarrow> tick \<Rightarrow> stmt" where
  "read_step pyfloat_of tk =
     (case poll tk of
        None \<Rightarrow> seq []
      | Some line \<Rightarrow> if line \<noteq> [] then handle_line pyfloat_of tk line else seq [])"

definition timeout_step :: "tick \<Rightarrow> stmt" where
  "timeout_step tk st =
     (if \<not> error_shown st \<and> t_check tk - last_data_time st > 10 then
        seq [lift (show_error 20), assign (\<lambda>st. st\<lparr>error_shown := True\<rparr>)] st
      else seq [] st)"

definition body :: "(string \<Rightarrow> pyfloat option) \<Rightarrow> tick \<Rightarrow> stmt" where
  "body pyfloat_of tk = seq [read_step pyfloat_of tk, timeout_step tk, lift (ok [Sleep (1 / 10)])]"

definition iteration :: "(string \<Rightarrow> pyfloat option) \<Rightarrow> tick \<Rightarrow> stmt" where
  "iteration pyfloat_of tk =
     try_except (body pyfloat_of tk) (\<lambda>e. True) (seq [lift (show_error 99), lift (ok [Sleep 1])])"

text \<open>
  \<open>while True\<close> over the iterations the environment supplies: it goes on to the next
  iteration unless one lets an exception out.
\<close>

fun run :: "(string \<Rightarrow> pyfloat option) \<Rightarrow> tick list \<Rightarrow> stmt" where
  "run pyfloat_of [] st = (st, [], None)"
| "run pyfloat_of (tk # tks) st =
     (case iteration pyfloat_of tk st of
        (st1, es1, Some e) \<Rightarrow> (st1, es1, Some e)
      | (st1, es1, None) \<Rightarrow>
          (case run pyfloat_of tks st1 of (st2, es2, x) \<Rightarrow> (st2, es1 @ es2, x)))"

text \<open>Reading a high-level trace: how often a given error code was put on the displays.\<close>

definition error_frame :: "int \<Rightarrow> int list" where
  "error_frame code = [E, DASH, DIGITS ! nat (code div 10), DIGITS ! nat (code mod 10)]"

definition error_calls :: "int \<Rightarrow> event list \<Rightarrow> nat" where
  "error_calls code es = count_list es (Write cpu_display (error_frame code))"

text \<open>How many \<open>time.sleep\<close> calls a trace holds: every pass through the loop ends in one.\<close>

definition sleeps :: "event list \<Rightarrow> nat" where
  "sleeps es = length (filter (\<lambda>e. case e of Sleep s \<Rightarrow> True | Write d segs \<Rightarrow> False) es)"

text \<open>
  A successful temperature update: a non-empty line with a separator whose first two
  fields both parse and for which both \<open>display_temp\<close> calls return.
\<close>

definition updated :: "(string \<Rightarrow> pyfloat option) \<Rightarrow> tick \<Rightarrow> bool" where
  "updated pyfloat_of tk =
     (case poll tk of
        None \<Rightarrow> False
      | Some line \<Rightarrow>
          line \<noteq> [] \<and> CHR '','' \<in> set line \<and>
          (case parse_field pyfloat_of (split_str CHR '','' line) 0 of
             Inl e \<Rightarrow> False
           | Inr cpu_temp \<Rightarrow>
               (case parse_field pyfloat_of (split_str CHR '','' line) 1 of
                  Inl e \<Rightarrow> False
                | Inr gpu_temp \<Rightarrow>
                    snd (display_temp cpu_display cpu_temp) = None \<and>
                    snd (display_temp gpu_display gpu_temp) = None)))"

text \<open>The value of \<open>float\<close> on the strings of the examples below.\<close>

definition example_float :: "string \<Rightarrow> pyfloat option" where
  "example_float s =
     (if s = ''45.0'' then Some (Finite 45)
      else if s = ''62.0'' then Some (Finite 62)
      else if s = ''99.75'' then Some (Finite (399 / 4))
      else None)"

section \<open>Transport lemmas\<close>

lemma run_seq_append:
  "run_seq (xs @ ys) self =
     (case run_seq xs self of (s1, e1) \<Rightarrow>
        (case run_seq ys s1 of (s2, e2) \<Rightarrow> (s2, e1 @ e2)))"
  by (induction xs arbitrary: self) (auto split: prod.splits)

lemma bit_value: "drop_bit i (b::int) AND 1 = (b div 2 ^ i) mod 2"
  by (simp add: and_one_eq drop_bit_eq_div)

lemma run_write_bit: "run_seq (write_bit b i) self = (self, bit_cycle self ((b div 2 ^ i) mod 2))"
  by (simp add: write_bit_def bit_cycle_def clk_value_def dio_value_def sleep_us_def bit_value)

lemma run_write_bits:
  "run_seq (concat (map (write_bit b) is)) self =
     (self, concat (map (\<lambda>i. bit_cycle self ((b div 2 ^ i) mod 2)) is))"
  by (induction "is") (simp_all add: run_seq_append run_write_bit)

lemma write_byte_events: "write_byte b self = (self, byte_events self b)"
  by (simp add: write_byte_def byte_events_def run_seq_append run_write_bits ack_pulse_def
      clk_value_def sleep_us_def)

lemma start_run: "start self = (self, start_events self)"
  by (simp add: start_def start_events_def dio_value_def sleep_us_def)

lemma stop_run: "stop self = (self, stop_events self)"
  by (simp add: stop_def stop_events_def dio_value_def clk_value_def sleep_us_def)

lemma upt_8: "[0..<8] = [0, 1, 2, 3, 4, 5, 6, 7::nat]"
  by (simp add: upt_rec)

lemma lsb_value_Cons: "lsb_value (v # vs) = v + 2 * lsb_value vs"
  by (simp add: lsb_value_def)

lemma lsb_value_bits:
  "lsb_value (map (\<lambda>i. ((b::int) div 2 ^ i) mod 2) [k..<k + n]) = (b div 2 ^ k) mod 2 ^ n"
proof (induction n arbitrary: k)
  case 0
  show ?case by (simp add: lsb_value_def)
next
  case (Suc n)
  have split: "[k..<k + Suc n] = k # [Suc k..<Suc k + n]"
    by (simp add: upt_rec)
  have step: "(b div 2 ^ k) div 2 = b div 2 ^ Suc k"
    using zdiv_zmult2_eq [of 2 b "2 ^ k"] zdiv_zmult2_eq [of "2 ^ k" b 2]
    by (simp add: mult.commute)
  have "(b div 2 ^ k) mod 2 ^ Suc n = 2 * ((b div 2 ^ k) div 2 mod 2 ^ n) + (b div 2 ^ k) mod 2"
    using zmod_zmult2_eq [of "2 ^ n" "b div 2 ^ k" 2] by simp
  then show ?case
    unfolding split using Suc.IH [of "Suc k"] step by (simp add: lsb_value_Cons)
qed

lemma lsb_value_byte:
  assumes "0 \<le> b" "b < 256"
  shows "lsb_value (map (\<lambda>i. (b div 2 ^ i) mod 2) [0..<8]) = (b::int)"
  using lsb_value_bits [of b 0 8] assms by simp

lemma byte_rising_edges:
  "clk self \<noteq> dio self \<Longrightarrow> rising_edges (clk self) lvl (byte_events self b) = 9"
  by (simp add: byte_events_def upt_8 bit_cycle_def ack_pulse_def)

lemma byte_data_values:
  "clk self \<noteq> dio self \<Longrightarrow>
     values_on (dio self) (byte_events self b) = map (\<lambda>i. (b div 2 ^ i) mod 2) [0..<8]"
  by (simp add: byte_events_def upt_8 bit_cycle_def ack_pulse_def)

lemma byte_one_prefix:
  "take 5 (byte_events self 1) =
     [PinValue (clk self) 0, SleepUs 2, PinValue (dio self) 1, SleepUs 2, PinValue (clk self) 1]"
  by (simp add: byte_events_def upt_8 bit_cycle_def ack_pulse_def)

lemma run_write_bytes:
  "run_seq (map write_byte segments) self = (self, concat (map (byte_events self) segments))"
  by (induction segments) (simp_all add: write_byte_events)

lemma write_events:
  "write segments self =
     (self, start_events self @ byte_events self 64 @ stop_events self @
            start_events self @ byte_events self 192 @
            concat (map (byte_events self) segments) @ stop_events self @
            start_events self @ byte_events self (136 OR brightness self) @ stop_events self)"
  by (simp add: write_def run_seq_append run_write_bytes write_byte_events start_run stop_run)

section \<open>The transport and the driver\<close>

text \<open>
  C1. \<open>write_byte\<close> leaves the display object as it was and performs, for the bits
  \<open>i = 0, ..., 7\<close> of \<open>b\<close> in this order, the cycle: clock low, 2 microseconds, data set
  to bit \<open>i\<close>, 2 microseconds, clock high, 2 microseconds; then one more pulse: clock
  low, delay, clock high, delay, clock low, delay, in which the data pin is not touched
  (the trace has no read operation at all). The data pin therefore receives exactly the
  eight bits, least significant first, and for an 8-bit \<open>b\<close> they add up to \<open>b\<close>. When
  the two pins differ, the clock rises exactly 9 times whatever its level was before,
  and for \<open>b = 1\<close> the data pin is set to 1 before the first rise.
\<close>

theorem write_byte_protocol:
  assumes "clk self \<noteq> dio self"
  shows "write_byte b self =
           (self, concat (map (\<lambda>i. bit_cycle self ((b div 2 ^ i) mod 2)) [0..<8]) @ ack_pulse self)
         \<and> values_on (dio self) (snd (write_byte b self)) =
             map (\<lambda>i. (b div 2 ^ i) mod 2) [0..<8]
         \<and> (0 \<le> b \<and> b < 256 \<longrightarrow> lsb_value (values_on (dio self) (snd (write_byte b self))) = b)
         \<and> rising_edges (clk self) lvl (snd (write_byte b self)) = 9
         \<and> take 5 (snd (write_byte 1 self)) =
             [PinValue (clk self) 0, SleepUs 2, PinValue (dio self) 1, SleepUs 2,
              PinValue (clk self) 1]"
proof -
  have run: "write_byte b self = (self, byte_events self b)"
    by (rule write_byte_events)
  have vals: "values_on (dio self) (byte_events self b) = map (\<lambda>i. (b div 2 ^ i) mod 2) [0..<8]"
    using assms by (rule byte_data_values)
  have sum: "0 \<le> b \<and> b < 256 \<longrightarrow> lsb_value (values_on (dio self) (byte_events self b)) = b"
    unfolding vals using lsb_value_byte [of b] by blast
  have edges: "rising_edges (clk self) lvl (byte_events self b) = 9"
    using assms by (rule byte_rising_edges)
  show ?thesis
    using run vals sum edges byte_one_prefix [of self]
    by (simp add: write_byte_events byte_events_def)
qed

theorem write_byte_protocol_witness:
  "clk cpu_display \<noteq> dio cpu_display \<and> (0::int) \<le> 165 \<and> (165::int) < 256
   \<and> values_on (dio cpu_display) (snd (write_byte 165 cpu_display)) = [1, 0, 1, 0, 0, 1, 0, 1]
   \<and> lsb_value (values_on (dio cpu_display) (snd (write_byte 165 cpu_display))) = 165
   \<and> rising_edges (clk cpu_display) 1 (snd (write_byte 165 cpu_display)) = 9"
proof -
  have pins: "clk cpu_display \<noteq> dio cpu_display"
    by (simp add: cpu_display_def)
  note th = write_byte_protocol [OF pins, of 165 1, THEN conjunct2]
  have vals: "values_on (dio cpu_display) (snd (write_byte 165 cpu_display)) =
      [1, 0, 1, 0, 0, 1, 0, 1]"
    using th [THEN conjunct1] by (simp add: upt_8)
  have sum: "lsb_value (values_on (dio cpu_display) (snd (write_byte 165 cpu_display))) = 165"
    using th [THEN conjunct2, THEN conjunct1] by simp
  have edges: "rising_edges (clk cpu_display) 1 (snd (write_byte 165 cpu_display)) = 9"
    using th [THEN conjunct2, THEN conjunct2, THEN conjunct1] .
  show ?thesis
    using pins vals sum edges by simp
qed

text \<open>
  C4. \<open>write\<close> with a frame of four entries performs three transactions and nothing
  else: start, byte \<open>0x40\<close>, stop; start, byte \<open>0xC0\<close>, the four entries from left to
  right with no start or stop between them, stop; start, byte \<open>0x88 | brightness\<close>,
  stop. It returns the display object as it received it, so the brightness is read and
  not changed.
\<close>

theorem write_three_transactions:
  "write [s0, s1, s2, s3] self =
     (self,
      start_events self @ byte_events self 64 @ stop_events self @
      start_events self @ byte_events self 192 @
        byte_events self s0 @ byte_events self s1 @ byte_events self s2 @ byte_events self s3 @
        stop_events self @
      start_events self @ byte_events self (136 OR brightness self) @ stop_events self)
   \<and> brightness (fst (write [s0, s1, s2, s3] self)) = brightness self
   \<and> snd (write_byte b self) = byte_events self b
   \<and> snd (start self) = start_events self \<and> snd (stop self) = stop_events self"
  by (simp add: write_events write_byte_events start_run stop_run)

section \<open>Rendering lemmas\<close>

lemma length_DIGITS: "length DIGITS = 10"
  by (simp add: DIGITS_def)

lemma getitem_DIGITS: "0 \<le> i \<Longrightarrow> i \<le> 9 \<Longrightarrow> getitem DIGITS i = Inr (DIGITS ! nat i)"
  by (simp add: getitem_def length_DIGITS)

lemma getitem_DIGITS_high: "10 \<le> i \<Longrightarrow> getitem DIGITS i = Inl IndexError"
  by (simp add: getitem_def length_DIGITS)

lemma getitem_in_set: "getitem xs i = Inr v \<Longrightarrow> v \<in> set xs"
  by (auto simp: getitem_def split: if_splits)

lemma DIGITS_values: "v \<in> set DIGITS \<Longrightarrow> v \<noteq> 0 \<and> v \<noteq> E \<and> v \<noteq> DASH"
  by (auto simp: DIGITS_def E_def DASH_def)

lemma write_list_values:
  "write_list d [Inr a, Inr b, Inr c, Inr e] = ok [Write d [a, b, c, e]]"
  by (simp add: write_list_def)

lemma build_Inr4:
  "build [a, b, c, e] = Inr segs \<Longrightarrow>
     \<exists>va vb vc ve. a = Inr va \<and> b = Inr vb \<and> c = Inr vc \<and> e = Inr ve \<and> segs = [va, vb, vc, ve]"
  by (cases a; cases b; cases c; cases e) auto

lemma write_list_events:
  "Write d' segs \<in> set (fst (write_list d items)) \<Longrightarrow> d' = d \<and> build items = Inr segs"
  by (auto simp: write_list_def ok_def raise_def split: sum.splits)

lemma rhe_floor: "\<lfloor>x\<rfloor> \<le> round_half_even x \<and> round_half_even x \<le> \<lfloor>x\<rfloor> + 1"
  by (simp add: round_half_even_def Let_def)

lemma rhe_nearest: "\<bar>x - of_int (round_half_even x)\<bar> \<le> 1 / 2"
  unfolding round_half_even_def Let_def by (auto; linarith)

lemma rhe_ge: "of_int k \<le> x \<Longrightarrow> k \<le> round_half_even x"
  using rhe_floor [of x] le_floor_iff [of k x] by linarith

lemma rhe_le: "x \<le> of_int k \<Longrightarrow> round_half_even x \<le> k"
  unfolding round_half_even_def Let_def by (auto; linarith)


lemma digits_3a:
  assumes "100 \<le> n" "n \<le> (999::int)"
  shows "1 \<le> n div 100 \<and> n div 100 \<le> 9"
  using assms by linarith

lemma digits_3b:
  "0 \<le> (n::int) mod 100 div 10 \<and> n mod 100 div 10 \<le> 9"
proof -
  have "0 \<le> n mod 100" "n mod 100 < 100" by simp_all
  then show ?thesis by linarith
qed

lemma digits_3c: "0 \<le> (n::int) mod 10 \<and> n mod 10 \<le> 9"
proof -
  have "0 \<le> n mod 10" "n mod 10 < 10" by simp_all
  then show ?thesis by linarith
qed

lemma digits_3d: "(n::int) = 100 * (n div 100) + 10 * (n mod 100 div 10) + n mod 10"
proof -
  have "n mod 100 mod 10 = n mod 10"
    by (simp add: mod_mod_cancel)
  then have "n mod 100 = 10 * (n mod 100 div 10) + n mod 10"
    using mult_div_mod_eq [of 10 "n mod 100"] by simp
  moreover have "n = 100 * (n div 100) + n mod 100"
    by simp
  ultimately show ?thesis by linarith
qed

lemma digits_2:
  assumes "0 \<le> code" "code \<le> (99::int)"
  shows "0 \<le> code div 10 \<and> code div 10 \<le> 9"
  using assms by linarith

lemma display_temp_hundreds:
  assumes "100 \<le> x" "x \<le> 999"
  shows "display_temp d (Finite x) =
           ok [Write d [DIGITS ! nat (round_half_even x div 100),
                        DIGITS ! nat (round_half_even x mod 100 div 10),
                        DIGITS ! nat (round_half_even x mod 10), 0]]"
proof -
  let ?n = "round_half_even x"
  have lo: "100 \<le> ?n" using rhe_ge [of 100 x] assms by simp
  have hi: "?n \<le> 999" using rhe_le [of x 999] assms by simp
  have g1: "getitem DIGITS (?n div 100) = Inr (DIGITS ! nat (?n div 100))"
    using digits_3a [OF lo hi] by (simp add: getitem_DIGITS)
  have g2: "getitem DIGITS (?n mod 100 div 10) = Inr (DIGITS ! nat (?n mod 100 div 10))"
    using digits_3b [of ?n] by (simp add: getitem_DIGITS)
  have g3: "getitem DIGITS (?n mod 10) = Inr (DIGITS ! nat (?n mod 10))"
    using digits_3c [of ?n] by (simp add: getitem_DIGITS)
  have nz: "x \<noteq> 0" "\<not> x < 0" "\<not> 999 < x" "\<not> 999 < ?n"
    using assms hi by linarith+
  show ?thesis
    using assms(1) nz
    by (simp add: display_temp_def Let_def g1 g2 g3 write_list_values del: of_int_less_iff)
qed

lemma display_temp_over:
  "999 < x \<Longrightarrow> display_temp d (Finite x) = ok [Write d [E, DASH, DASH, DASH]]"
  by (simp add: display_temp_def write_list_values)

lemma show_error_two_digits:
  assumes "0 \<le> code" "code \<le> 99"
  shows "show_error code =
     ok [Write cpu_display [E, DASH, DIGITS ! nat (code div 10), DIGITS ! nat (code mod 10)],
         Write gpu_display [E, DASH, DIGITS ! nat (code div 10), DIGITS ! nat (code mod 10)]]"
proof -
  note t = digits_2 [OF assms]
  note o = digits_3c [of code]
  show ?thesis
    using t o by (simp add: show_error_def Let_def getitem_DIGITS write_list_values then_do_def ok_def)
qed


lemma rhe_below_half: "x < of_int k + 1 / 2 \<Longrightarrow> round_half_even x \<le> k"
  unfolding round_half_even_def Let_def by (auto; linarith)

lemma rhe_from_half:
  assumes "of_int k + 1 / 2 \<le> x" "x < of_int k + 1" "odd k"
  shows "round_half_even x = k + 1"
proof -
  have fl: "\<lfloor>x\<rfloor> = k"
    using assms(1,2) by (intro floor_unique) linarith+
  show ?thesis
    using assms by (auto simp: round_half_even_def Let_def fl)
qed

lemma display_temp_two_digits:
  assumes "0 < x" "x < 199 / 2"
  shows "display_temp d (Finite x) =
           ok [Write d [0, if 0 < round_half_even x div 10
                           then DIGITS ! nat (round_half_even x div 10) else 0,
                        DIGITS ! nat (round_half_even x mod 10), C]]"
proof -
  let ?n = "round_half_even x"
  have lo: "0 \<le> ?n" using rhe_ge [of 0 x] assms by simp
  have hi: "?n \<le> 99" using rhe_below_half [of x 99] assms by simp
  have g1: "getitem DIGITS (?n div 10) = Inr (DIGITS ! nat (?n div 10))"
    using digits_2 [OF lo hi] by (simp add: getitem_DIGITS)
  have g2: "getitem DIGITS (?n mod 10) = Inr (DIGITS ! nat (?n mod 10))"
    using digits_3c [of ?n] by (simp add: getitem_DIGITS)
  have nz: "x \<noteq> 0" "\<not> x < 0" "\<not> 999 < x" "\<not> 100 \<le> x"
    using assms by linarith+
  show ?thesis
    using nz by (simp add: display_temp_def Let_def g1 g2 write_list_values)
qed

lemma display_temp_index_error:
  assumes "199 / 2 \<le> x" "x < 100"
  shows "display_temp d (Finite x) = raise IndexError"
proof -
  have r: "round_half_even x = 100"
    using rhe_from_half [of 99 x] assms by simp
  have nz: "x \<noteq> 0" "\<not> x < 0" "\<not> 999 < x" "\<not> 100 \<le> x"
    using assms by linarith+
  show ?thesis
    using nz by (simp add: display_temp_def Let_def r getitem_DIGITS_high write_list_def)
qed

lemma write_list_frame:
  assumes "Write d' segs \<in> set (fst (write_list d [a, b, c, e]))"
  shows "\<exists>va vb vc ve. a = Inr va \<and> b = Inr vb \<and> c = Inr vc \<and> e = Inr ve
           \<and> segs = [va, vb, vc, ve]"
proof -
  have "build [a, b, c, e] = Inr segs"
    using write_list_events [OF assms] by simp
  then show ?thesis
    by (rule build_Inr4)
qed

text \<open>The shape of every frame that \<open>display_temp\<close> can write.\<close>

lemma display_temp_branches:
  "display_temp d temp = write_list d [Inr 0, Inr DASH, Inr DASH, Inr 0] \<and> float_eq temp 0
   \<or> display_temp d temp = write_list d [Inr E, Inr DASH, Inr DASH, Inr DASH]
       \<and> \<not> float_eq temp 0 \<and> (float_lt temp 0 \<or> float_gt temp 999)
   \<or> (\<exists>e. display_temp d temp = raise e)
   \<or> (\<exists>a b c. display_temp d temp = write_list d [getitem DIGITS a, b, c, Inr 0])
   \<or> (\<exists>b c. display_temp d temp = write_list d [Inr 0, b, c, Inr C])"
proof (cases "float_eq temp 0")
  case True
  then show ?thesis by (simp add: display_temp_def)
next
  case nz: False
  show ?thesis
  proof (cases "float_lt temp 0 \<or> float_gt temp 999")
    case True
    then show ?thesis using nz by (simp add: display_temp_def)
  next
    case nr: False
    show ?thesis
    proof (cases "py_round temp")
      case (Inl e)
      have "display_temp d temp = raise e"
        using nz nr Inl by (simp add: display_temp_def)
      then show ?thesis by blast
    next
      case (Inr r)
      show ?thesis
      proof (cases "float_ge temp 100")
        case True
        have "\<exists>a b c. display_temp d temp = write_list d [getitem DIGITS a, b, c, Inr 0]"
          unfolding display_temp_def Let_def using nz nr Inr True
          by (simp only: if_False if_True sum.case) blast
        then show ?thesis by blast
      next
        case False
        have "\<exists>b c. display_temp d temp = write_list d [Inr 0, b, c, Inr C]"
          unfolding display_temp_def Let_def using nz nr Inr False
          by (simp only: if_False if_True sum.case) blast
        then show ?thesis by blast
      qed
    qed
  qed
qed


lemma write_list_in_DIGITS:
  assumes "Write d' [v, x, y, z] \<in> set (fst (write_list d [getitem DIGITS a, b, c, e]))"
  shows "v \<in> set DIGITS"
proof -
  from write_list_frame [OF assms] have "getitem DIGITS a = Inr v" by auto
  then show ?thesis by (rule getitem_in_set)
qed

lemma display_temp_zero_only:
  assumes "Write d' [0, DASH, DASH, 0] \<in> set (fst (display_temp d temp))"
  shows "float_eq temp 0"
proof -
  consider
    (zero) "float_eq temp 0"
  | (range) "display_temp d temp = write_list d [Inr E, Inr DASH, Inr DASH, Inr DASH]"
  | (raised) e where "display_temp d temp = raise e"
  | (three) a b c where "display_temp d temp = write_list d [getitem DIGITS a, b, c, Inr 0]"
  | (two) b c where "display_temp d temp = write_list d [Inr 0, b, c, Inr C]"
    using display_temp_branches [of d temp] by blast
  then show ?thesis
  proof cases
    case zero
    then show ?thesis .
  next
    case range
    from write_list_frame [OF assms [unfolded range]] have "E = 0" by simp
    then show ?thesis by (simp add: E_def)
  next
    case raised
    then show ?thesis using assms by (simp add: raise_def)
  next
    case three
    from write_list_in_DIGITS [OF assms [unfolded three]] have "0 \<in> set DIGITS" .
    then show ?thesis using DIGITS_values [of 0] by simp
  next
    case two
    from write_list_frame [OF assms [unfolded two]] have "C = 0" by simp
    then show ?thesis by (simp add: C_def)
  qed
qed

lemma display_temp_range_only:
  assumes "Write d' [E, DASH, DASH, DASH] \<in> set (fst (display_temp d temp))"
  shows "float_lt temp 0 \<or> float_gt temp 999"
proof -
  consider
    (zero) "display_temp d temp = write_list d [Inr 0, Inr DASH, Inr DASH, Inr 0]"
  | (range) "float_lt temp 0 \<or> float_gt temp 999"
  | (raised) e where "display_temp d temp = raise e"
  | (three) a b c where "display_temp d temp = write_list d [getitem DIGITS a, b, c, Inr 0]"
  | (two) b c where "display_temp d temp = write_list d [Inr 0, b, c, Inr C]"
    using display_temp_branches [of d temp] by blast
  then show ?thesis
  proof cases
    case zero
    from write_list_frame [OF assms [unfolded zero]] have "E = 0" by simp
    then show ?thesis by (simp add: E_def)
  next
    case range
    then show ?thesis .
  next
    case raised
    then show ?thesis using assms by (simp add: raise_def)
  next
    case three
    from write_list_in_DIGITS [OF assms [unfolded three]] have "E \<in> set DIGITS" .
    then show ?thesis using DIGITS_values [of E] by simp
  next
    case two
    from write_list_frame [OF assms [unfolded two]] have "E = 0" by simp
    then show ?thesis by (simp add: E_def)
  qed
qed

lemma sentinels_disjoint: "\<not> (float_eq temp 0 \<and> (float_lt temp 0 \<or> float_gt temp 999))"
  by (cases temp) auto


lemma display_temp_zero: "float_eq temp 0 \<Longrightarrow> display_temp d temp = ok [Write d [0, DASH, DASH, 0]]"
  by (simp add: display_temp_def write_list_values)

lemma display_temp_out_of_range:
  assumes "float_lt temp 0 \<or> float_gt temp 999"
  shows "display_temp d temp = ok [Write d [E, DASH, DASH, DASH]]"
proof -
  have "\<not> float_eq temp 0"
    using assms sentinels_disjoint [of temp] by blast
  then show ?thesis
    using assms by (simp add: display_temp_def write_list_values)
qed

section \<open>Rendering\<close>

text \<open>
  C7. For every code from 0 to 99, \<open>show_error\<close> writes the frame
  \<open>[E, DASH, DIGITS[code // 10], DIGITS[code % 10]]\<close> to the CPU display and then to the GPU
  display and raises nothing; both digits lie in 0..9 and \<open>code = tens * 10 + ones\<close>.
\<close>

theorem show_error_frame:
  assumes "0 \<le> code" "code \<le> 99"
  shows "show_error code =
           ok [Write cpu_display [E, DASH, DIGITS ! nat (code div 10), DIGITS ! nat (code mod 10)],
               Write gpu_display [E, DASH, DIGITS ! nat (code div 10), DIGITS ! nat (code mod 10)]]
         \<and> 0 \<le> code div 10 \<and> code div 10 \<le> 9 \<and> 0 \<le> code mod 10 \<and> code mod 10 \<le> 9
         \<and> code = (code div 10) * 10 + code mod 10"
  using show_error_two_digits [OF assms] digits_2 [OF assms] digits_3c [of code] by simp

theorem show_error_frame_witness:
  "(0::int) \<le> 20 \<and> (20::int) \<le> 99
   \<and> show_error 20 = ok [Write cpu_display [121, 64, 91, 63], Write gpu_display [121, 64, 91, 63]]"
  using show_error_frame [of 20] by (simp add: E_def DASH_def DIGITS_def)

text \<open>
  C10. For a status code other than 1, 2 and 3, \<open>show_status\<close> makes no call to
  \<open>write\<close> and raises nothing, so no pin operation reaches either display.
\<close>

theorem show_status_other:
  assumes "code \<noteq> 1" "code \<noteq> 2" "code \<noteq> 3"
  shows "show_status code = ([], None) \<and> wire (fst (show_status code)) = []"
  using assms by (simp add: show_status_def ok_def)

theorem show_status_other_witness:
  "(4::int) \<noteq> 1 \<and> (4::int) \<noteq> 2 \<and> (4::int) \<noteq> 3
   \<and> show_status 4 = ([], None) \<and> wire (fst (show_status 4)) = []"
  using show_status_other [of 4] by simp

text \<open>
  C2. The claim holds below 99.5 (\<open>display_temp_two_digits\<close>), but not on the whole open
  interval: a temperature from 99.5 up to, not including, 100 rounds to 100 while the
  comparison \<open>temp >= 100\<close> on the unrounded value still takes the two-digit branch, so
  \<open>tens\<close> is 10, \<open>DIGITS[10]\<close> raises \<open>IndexError\<close> and nothing is written. Evaluated
  at 99.75 and at 99.5.
\<close>

theorem display_temp_rounds_to_100:
  "display_temp cpu_display (Finite (399 / 4)) = ([], Some IndexError)
   \<and> display_temp cpu_display (Finite (199 / 2)) = ([], Some IndexError)"
  using display_temp_index_error [of "399 / 4" cpu_display]
        display_temp_index_error [of "199 / 2" cpu_display]
  by (simp add: raise_def)

text \<open>
  C3, as amended. For every temperature from 100 to 999, \<open>display_temp\<close> rounds to the
  nearest integer, which again lies in 100..999 (so the cap at 999 never applies), and
  writes its hundreds, tens and ones digits followed by a blank. For every temperature
  above 999, 999.9 among them, it writes the out-of-range frame \<open>[E, DASH, DASH, DASH]\<close>.
\<close>

theorem display_temp_three_digits:
  "(100 \<le> x \<and> x \<le> 999 \<longrightarrow>
      \<bar>x - of_int (round_half_even x)\<bar> \<le> 1 / 2
      \<and> 100 \<le> round_half_even x \<and> round_half_even x \<le> 999
      \<and> display_temp d (Finite x) =
          ok [Write d [DIGITS ! nat (round_half_even x div 100),
                       DIGITS ! nat (round_half_even x mod 100 div 10),
                       DIGITS ! nat (round_half_even x mod 10), 0]]
      \<and> round_half_even x =
          100 * (round_half_even x div 100) + 10 * (round_half_even x mod 100 div 10)
          + round_half_even x mod 10)
   \<and> (999 < x \<longrightarrow> display_temp d (Finite x) = ok [Write d [E, DASH, DASH, DASH]])"
  using rhe_nearest [of x] rhe_ge [of 100 x] rhe_le [of x 999]
        display_temp_hundreds [of x d] display_temp_over [of x d]
        digits_3d [of "round_half_even x"]
  by simp

theorem display_temp_three_digits_witness:
  "(100::real) \<le> 528 / 5 \<and> (528::real) / 5 \<le> 999
   \<and> display_temp cpu_display (Finite (528 / 5)) = ok [Write cpu_display [6, 63, 125, 0]]
   \<and> (999::real) < 9999 / 10
   \<and> display_temp cpu_display (Finite (9999 / 10)) = ok [Write cpu_display [121, 64, 64, 64]]"
proof -
  have r: "round_half_even (528 / 5) = 106"
    by (simp add: round_half_even_def Let_def)
  show ?thesis
    using display_temp_three_digits [of "528 / 5" cpu_display]
          display_temp_three_digits [of "9999 / 10" cpu_display]
    by (simp add: r E_def DASH_def DIGITS_def)
qed

text \<open>
  C3 as stated fails at 999.9: the range check \<open>temp > 999\<close> comes before the rounding
  and the cap, so the frame is the out-of-range one and not \<open>[9, 9, 9, blank]\<close>.
\<close>

theorem display_temp_999_9_counterexample:
  "display_temp cpu_display (Finite (9999 / 10)) = ok [Write cpu_display [E, DASH, DASH, DASH]]
   \<and> display_temp cpu_display (Finite (9999 / 10))
       \<noteq> ok [Write cpu_display [DIGITS ! 9, DIGITS ! 9, DIGITS ! 9, 0]]"
  by (simp add: display_temp_def write_list_def ok_def E_def DIGITS_def)

text \<open>
  C8. \<open>display_temp\<close> writes the frame \<open>[blank, DASH, DASH, blank]\<close> when \<open>temp == 0\<close> and
  in no other case, and the frame \<open>[E, DASH, DASH, DASH]\<close> when \<open>temp < 0 or temp > 999\<close>
  and in no other case. The two conditions exclude each other, so testing zero first
  decides nothing else, and neither frame holds a digit pattern.
\<close>

theorem display_temp_sentinels:
  "(float_eq temp 0 \<longrightarrow> display_temp d temp = ok [Write d [0, DASH, DASH, 0]])
   \<and> (Write d' [0, DASH, DASH, 0] \<in> set (fst (display_temp d temp)) \<longrightarrow> float_eq temp 0)
   \<and> (float_lt temp 0 \<or> float_gt temp 999 \<longrightarrow>
        display_temp d temp = ok [Write d [E, DASH, DASH, DASH]])
   \<and> (Write d' [E, DASH, DASH, DASH] \<in> set (fst (display_temp d temp)) \<longrightarrow>
        float_lt temp 0 \<or> float_gt temp 999)
   \<and> \<not> (float_eq temp 0 \<and> (float_lt temp 0 \<or> float_gt temp 999))
   \<and> set [0, DASH, DASH, 0] \<inter> set DIGITS = {}
   \<and> set [E, DASH, DASH, DASH] \<inter> set DIGITS = {}"
proof (intro conjI impI)
  show "set [0, DASH, DASH, 0] \<inter> set DIGITS = {}"
    by (simp add: DASH_def DIGITS_def)
  show "set [E, DASH, DASH, DASH] \<inter> set DIGITS = {}"
    by (simp add: E_def DASH_def DIGITS_def)
  show "\<not> (float_eq temp 0 \<and> (float_lt temp 0 \<or> float_gt temp 999))"
    by (rule sentinels_disjoint)
qed (erule display_temp_zero display_temp_zero_only display_temp_out_of_range
      display_temp_range_only)+

theorem display_temp_sentinels_witness:
  "float_eq (Finite 0) 0
   \<and> display_temp cpu_display (Finite 0) = ok [Write cpu_display [0, 64, 64, 0]]
   \<and> float_lt (Finite (- 5)) 0
   \<and> display_temp cpu_display (Finite (- 5)) = ok [Write cpu_display [121, 64, 64, 64]]
   \<and> float_gt (Finite 1000) 999
   \<and> display_temp gpu_display (Finite 1000) = ok [Write gpu_display [121, 64, 64, 64]]
   \<and> \<not> float_eq (Finite 72) 0
   \<and> Write cpu_display [0, DASH, DASH, 0] \<notin> set (fst (display_temp cpu_display (Finite 72)))"
proof -
  have a: "display_temp cpu_display (Finite 0) = ok [Write cpu_display [0, 64, 64, 0]]"
    using display_temp_sentinels [of "Finite 0" cpu_display cpu_display, THEN conjunct1]
    by (simp add: DASH_def)
  have b: "display_temp cpu_display (Finite (- 5)) = ok [Write cpu_display [121, 64, 64, 64]]"
    using display_temp_sentinels [of "Finite (- 5)" cpu_display cpu_display]
    by (simp add: DASH_def E_def)
  have c: "display_temp gpu_display (Finite 1000) = ok [Write gpu_display [121, 64, 64, 64]]"
    using display_temp_sentinels [of "Finite 1000" gpu_display gpu_display]
    by (simp add: DASH_def E_def)
  have e: "Write cpu_display [0, DASH, DASH, 0] \<notin> set (fst (display_temp cpu_display (Finite 72)))"
    using display_temp_sentinels [of "Finite 72" cpu_display cpu_display,
        THEN conjunct2, THEN conjunct1]
    by auto
  show ?thesis using a b c e by simp
qed

section \<open>Main loop lemmas\<close>

lemma show_error_value:
  "0 \<le> code \<Longrightarrow> code \<le> 99 \<Longrightarrow>
     show_error code =
       ([Write cpu_display (error_frame code), Write gpu_display (error_frame code)], None)"
  by (simp add: show_error_two_digits error_frame_def ok_def)

lemma error_stmt:
  assumes "0 \<le> code" "code \<le> 99"
  shows "seq [lift (show_error code), assign f] st =
           (f st, [Write cpu_display (error_frame code), Write gpu_display (error_frame code)], None)"
  by (simp add: show_error_value [OF assms] lift_def assign_def)

lemma handler_99:
  "seq [lift (show_error 99), lift (ok [Sleep 1])] st =
     (st, [Write cpu_display (error_frame 99), Write gpu_display (error_frame 99), Sleep 1], None)"
  by (simp add: show_error_value lift_def ok_def)

lemma length_split_str: "length (split_str sep s) = Suc (length (filter (\<lambda>c. c = sep) s))"
  by (induction s) (auto split: list.splits)

lemma split_str_two:
  assumes "sep \<in> set s"
  shows "2 \<le> length (split_str sep s)"
proof (cases "filter (\<lambda>c. c = sep) s")
  case Nil
  then show ?thesis
    using assms by (auto simp: filter_empty_conv)
next
  case (Cons c cs)
  then show ?thesis
    by (simp add: length_split_str)
qed

lemma getitem_parts:
  assumes "sep \<in> set s"
  shows "getitem (split_str sep s) 0 = Inr (split_str sep s ! 0)"
    and "getitem (split_str sep s) 1 = Inr (split_str sep s ! 1)"
  using split_str_two [OF assms] by (auto simp: getitem_def)

lemma timeout_step_value:
  "timeout_step tk st =
     (if \<not> error_shown st \<and> t_check tk - last_data_time st > 10
      then (st\<lparr>error_shown := True\<rparr>,
            [Write cpu_display (error_frame 20), Write gpu_display (error_frame 20)], None)
      else (st, [], None))"
  by (simp add: timeout_step_def error_stmt [of 20] del: seq.simps) simp

lemma body_after_read:
  assumes "read_step pf tk st = (st1, es1, None)"
  shows "body pf tk st =
     (if \<not> error_shown st1 \<and> t_check tk - last_data_time st1 > 10
      then (st1\<lparr>error_shown := True\<rparr>,
            es1 @ [Write cpu_display (error_frame 20), Write gpu_display (error_frame 20),
                   Sleep (1 / 10)], None)
      else (st1, es1 @ [Sleep (1 / 10)], None))"
  by (simp add: body_def assms timeout_step_value lift_def ok_def)

lemma body_read_raises:
  assumes "read_step pf tk st = (st1, es1, Some e)"
  shows "body pf tk st = (st1, es1, Some e)"
  by (simp add: body_def assms)

lemma iteration_of_body:
  "iteration pf tk st =
     (case body pf tk st of
        (st1, es1, None) \<Rightarrow> (st1, es1, None)
      | (st1, es1, Some e) \<Rightarrow>
          (st1, es1 @ [Write cpu_display (error_frame 99), Write gpu_display (error_frame 99),
                       Sleep 1], None))"
  by (simp add: iteration_def try_except_def handler_99 del: seq.simps
      split: prod.splits option.splits)

lemma iteration_no_raise: "snd (snd (iteration pf tk st)) = None"
  by (simp add: iteration_of_body split: prod.splits option.splits)

lemma update_value:
  "update pf tk parts st =
     (case parse_field pf parts 0 of
        Inl e \<Rightarrow> (st, [], Some e)
      | Inr c \<Rightarrow>
          (case parse_field pf parts 1 of
             Inl e \<Rightarrow> (st, [], Some e)
           | Inr g \<Rightarrow>
               (case display_temp cpu_display c of
                  (es, Some e) \<Rightarrow> (st, es, Some e)
                | (es, None) \<Rightarrow>
                    (case display_temp gpu_display g of
                       (es', Some e) \<Rightarrow> (st, es @ es', Some e)
                     | (es', None) \<Rightarrow>
                         (st\<lparr>last_data_time := t_update tk, error_shown := False\<rparr>,
                          es @ es', None)))))"
  by (simp add: update_def throw_def lift_def assign_def
      split: sum.splits prod.splits option.splits)

lemma error_frame_20: "error_frame 20 = [121, 64, 91, 63]"
  by (simp add: error_frame_def E_def DASH_def DIGITS_def)

lemma error_frame_other:
  "error_frame 10 \<noteq> error_frame 20" "error_frame 11 \<noteq> error_frame 20"
  "error_frame 99 \<noteq> error_frame 20"
  by (simp_all add: error_frame_def DIGITS_def)

lemma display_temp_not_20: "Write d' (error_frame 20) \<notin> set (fst (display_temp d temp))"
proof
  assume a: "Write d' (error_frame 20) \<in> set (fst (display_temp d temp))"
  consider
    (zero) "display_temp d temp = write_list d [Inr 0, Inr DASH, Inr DASH, Inr 0]"
  | (range) "display_temp d temp = write_list d [Inr E, Inr DASH, Inr DASH, Inr DASH]"
  | (raised) e where "display_temp d temp = raise e"
  | (three) a b c where "display_temp d temp = write_list d [getitem DIGITS a, b, c, Inr 0]"
  | (two) b c where "display_temp d temp = write_list d [Inr 0, b, c, Inr C]"
    using display_temp_branches [of d temp] by blast
  then show False
  proof cases
    case zero
    from write_list_frame [OF a [unfolded zero]] show False
      by (simp add: error_frame_20)
  next
    case range
    from write_list_frame [OF a [unfolded range]] show False
      by (simp add: error_frame_20 DASH_def)
  next
    case raised
    then show False using a by (simp add: raise_def)
  next
    case three
    from write_list_frame [OF a [unfolded three]] show False
      by (auto simp: error_frame_20)
  next
    case two
    from write_list_frame [OF a [unfolded two]] show False
      by (simp add: error_frame_20)
  qed
qed

lemma error_calls_append: "error_calls code (xs @ ys) = error_calls code xs + error_calls code ys"
  by (simp add: error_calls_def)

lemma error_calls_display_temp: "error_calls 20 (fst (display_temp d temp)) = 0"
  using display_temp_not_20 [of cpu_display d temp] by (simp add: error_calls_def count_list_0_iff)

lemma error_calls_display_temp_result:
  "display_temp d temp = (es, x) \<Longrightarrow> error_calls 20 es = 0"
  using error_calls_display_temp [of d temp] by simp

lemma displays_differ: "gpu_display \<noteq> cpu_display"
  by (simp add: cpu_display_def gpu_display_def)

lemma error_calls_frames:
  "error_calls 20 [Write cpu_display (error_frame 20), Write gpu_display (error_frame 20)] = 1"
  "error_calls 20 [Write cpu_display (error_frame 10), Write gpu_display (error_frame 10)] = 0"
  "error_calls 20 [Write cpu_display (error_frame 11), Write gpu_display (error_frame 11)] = 0"
  "error_calls 20 [Write cpu_display (error_frame 99), Write gpu_display (error_frame 99)] = 0"
  "error_calls 20 [Sleep s] = 0" "error_calls 20 [] = 0"
  using error_frame_other displays_differ by (simp_all add: error_calls_def)

lemma update_outcome:
  assumes "update pf tk parts st = (st1, es1, x)"
  shows "error_calls 20 es1 = 0"
    and "x \<noteq> None \<longrightarrow> st1 = st"
    and "x = None \<longrightarrow> st1 = st\<lparr>last_data_time := t_update tk, error_shown := False\<rparr>"
proof -
  note u = assms [unfolded update_value]
  show "error_calls 20 es1 = 0"
    using u
    by (auto simp: error_calls_append error_calls_frames dest: error_calls_display_temp_result
        split: sum.splits prod.splits option.splits)
  show "x \<noteq> None \<longrightarrow> st1 = st"
    using u by (auto split: sum.splits prod.splits option.splits)
  show "x = None \<longrightarrow> st1 = st\<lparr>last_data_time := t_update tk, error_shown := False\<rparr>"
    using u by (auto split: sum.splits prod.splits option.splits)
qed

lemma update_parse_fails:
  assumes "CHR '','' \<in> set line"
    and "pf (split_str CHR '','' line ! 0) = None \<or> pf (split_str CHR '','' line ! 1) = None"
  shows "update pf tk (split_str CHR '','' line) st = (st, [], Some ValueError)"
  using assms(2)
  by (auto simp: update_value parse_field_def getitem_parts [OF assms(1)] split: option.splits)

lemma handle_line_value:
  "handle_line pf tk line st =
     (if CHR '','' \<in> set line then
        (case update pf tk (split_str CHR '','' line) st of
           (st1, es1, Some e) \<Rightarrow>
             (if e = ValueError
              then (st1\<lparr>error_shown := True\<rparr>,
                    es1 @ [Write cpu_display (error_frame 10), Write gpu_display (error_frame 10)],
                    None)
              else (st1, es1, Some e))
         | (st1, es1, None) \<Rightarrow> (st1, es1, None))
      else (st\<lparr>error_shown := True\<rparr>,
            [Write cpu_display (error_frame 11), Write gpu_display (error_frame 11)], None))"
  by (simp add: handle_line_def try_except_def error_stmt [of 10] error_stmt [of 11]
      del: seq.simps split: prod.splits option.splits)

lemma read_no_separator:
  assumes "poll tk = Some line" "line \<noteq> []" "CHR '','' \<notin> set line"
  shows "read_step pf tk st =
           (st\<lparr>error_shown := True\<rparr>,
            [Write cpu_display (error_frame 11), Write gpu_display (error_frame 11)], None)"
  using assms by (simp add: read_step_def handle_line_value)

lemma read_parse_fails:
  assumes "poll tk = Some line" "CHR '','' \<in> set line"
    and "pf (split_str CHR '','' line ! 0) = None \<or> pf (split_str CHR '','' line ! 1) = None"
  shows "read_step pf tk st =
           (st\<lparr>error_shown := True\<rparr>,
            [Write cpu_display (error_frame 10), Write gpu_display (error_frame 10)], None)"
proof -
  have "line \<noteq> []" using assms(2) by auto
  then show ?thesis
    using assms(1,2) by (simp add: read_step_def handle_line_value update_parse_fails [OF assms(2,3)])
qed

lemma iteration_latched_read:
  assumes "read_step pf tk st = (st\<lparr>error_shown := True\<rparr>, es, None)"
  shows "iteration pf tk st = (st\<lparr>error_shown := True\<rparr>, es @ [Sleep (1 / 10)], None)"
  by (simp add: iteration_of_body body_after_read [OF assms])

lemma sleeps_append: "sleeps (xs @ ys) = sleeps xs + sleeps ys"
  by (simp add: sleeps_def)

lemma sleeps_simps:
  "sleeps [] = 0" "sleeps (Write d segs # es) = sleeps es" "sleeps (Sleep s # es) = Suc (sleeps es)"
  by (simp_all add: sleeps_def)

lemma sleeps_write_list: "sleeps (fst (write_list d items)) = 0"
  by (simp add: write_list_def ok_def raise_def sleeps_simps split: sum.splits)

lemma sleeps_display_temp: "sleeps (fst (display_temp d temp)) = 0"
proof -
  consider
    (zero) "display_temp d temp = write_list d [Inr 0, Inr DASH, Inr DASH, Inr 0]"
  | (range) "display_temp d temp = write_list d [Inr E, Inr DASH, Inr DASH, Inr DASH]"
  | (raised) e where "display_temp d temp = raise e"
  | (three) a b c where "display_temp d temp = write_list d [getitem DIGITS a, b, c, Inr 0]"
  | (two) b c where "display_temp d temp = write_list d [Inr 0, b, c, Inr C]"
    using display_temp_branches [of d temp] by blast
  then show ?thesis
    by cases (simp_all add: sleeps_write_list, simp add: raise_def sleeps_simps)
qed

lemma sleeps_display_temp_result: "display_temp d temp = (es, x) \<Longrightarrow> sleeps es = 0"
  using sleeps_display_temp [of d temp] by simp

lemma update_sleeps:
  assumes "update pf tk parts st = (st1, es1, x)"
  shows "sleeps es1 = 0"
  using assms [unfolded update_value]
  by (auto simp: sleeps_append sleeps_simps dest: sleeps_display_temp_result
      split: sum.splits prod.splits option.splits)

lemma read_step_events:
  assumes "read_step pf tk st = (st1, es1, x)"
  shows "error_calls 20 es1 = 0 \<and> sleeps es1 = 0"
proof (cases "poll tk")
  case None
  then show ?thesis
    using assms by (auto simp: read_step_def error_calls_frames sleeps_simps)
next
  case (Some line)
  show ?thesis
  proof (cases "line \<noteq> [] \<and> CHR '','' \<in> set line")
    case False
    then show ?thesis
      using assms Some
      by (auto simp: read_step_def handle_line_value error_calls_frames sleeps_simps
          split: if_splits)
  next
    case True
    obtain st' es' x' where u: "update pf tk (split_str CHR '','' line) st = (st', es', x')"
      by (cases "update pf tk (split_str CHR '','' line) st") auto
    have e: "error_calls 20 es' = 0" "sleeps es' = 0"
      using update_outcome(1) [OF u] update_sleeps [OF u] by simp_all
    show ?thesis
      using assms Some True u e
      by (auto simp: read_step_def handle_line_value error_calls_append error_calls_frames
          sleeps_append sleeps_simps split: option.splits if_splits)
  qed
qed

lemma read_step_not_updated:
  assumes "\<not> updated pf tk" "read_step pf tk st = (st1, es1, x)"
  shows "st1 = st \<or> st1 = st\<lparr>error_shown := True\<rparr>"
proof (cases "poll tk")
  case None
  then show ?thesis
    using assms(2) by (auto simp: read_step_def)
next
  case (Some line)
  show ?thesis
  proof (cases "line \<noteq> [] \<and> CHR '','' \<in> set line")
    case False
    then show ?thesis
      using assms(2) Some by (auto simp: read_step_def handle_line_value split: if_splits)
  next
    case True
    obtain st' es' x' where u: "update pf tk (split_str CHR '','' line) st = (st', es', x')"
      by (cases "update pf tk (split_str CHR '','' line) st") auto
    have "x' \<noteq> None"
      using assms(1) Some True u
      by (auto simp: updated_def update_value split: sum.splits prod.splits option.splits)
    then have "st' = st"
      using update_outcome(2) [OF u] by simp
    then show ?thesis
      using assms(2) Some True u \<open>x' \<noteq> None\<close>
      by (auto simp: read_step_def handle_line_value split: option.splits if_splits)
  qed
qed

lemma read_step_updated:
  assumes "updated pf tk"
  shows "fst (read_step pf tk st) = st\<lparr>last_data_time := t_update tk, error_shown := False\<rparr>
         \<and> snd (snd (read_step pf tk st)) = None"
proof -
  obtain line where l: "poll tk = Some line" "line \<noteq> []" "CHR '','' \<in> set line"
    using assms by (auto simp: updated_def split: option.splits)
  obtain st' es' x' where u: "update pf tk (split_str CHR '','' line) st = (st', es', x')"
    by (cases "update pf tk (split_str CHR '','' line) st") auto
  have "x' = None"
    using assms l u
    by (auto simp: updated_def update_value split: sum.splits prod.splits option.splits)
  then show ?thesis
    using l u update_outcome(3) [OF u] by (simp add: read_step_def handle_line_value)
qed

lemma iteration_after_read:
  assumes "read_step pf tk st = (st1, es1, None)"
  shows "iteration pf tk st =
     (if \<not> error_shown st1 \<and> t_check tk - last_data_time st1 > 10
      then (st1\<lparr>error_shown := True\<rparr>,
            es1 @ [Write cpu_display (error_frame 20), Write gpu_display (error_frame 20),
                   Sleep (1 / 10)], None)
      else (st1, es1 @ [Sleep (1 / 10)], None))"
  by (simp add: iteration_of_body body_after_read [OF assms])

lemma iteration_read_raises:
  assumes "read_step pf tk st = (st1, es1, Some e)"
  shows "iteration pf tk st =
     (st1, es1 @ [Write cpu_display (error_frame 99), Write gpu_display (error_frame 99),
                  Sleep 1], None)"
  by (simp add: iteration_of_body body_read_raises [OF assms])

lemma iteration_sleeps: "sleeps (fst (snd (iteration pf tk st))) = 1"
proof -
  obtain st1 es1 x where r: "read_step pf tk st = (st1, es1, x)"
    by (cases "read_step pf tk st") auto
  have z: "sleeps es1 = 0"
    using read_step_events [OF r] by simp
  show ?thesis
  proof (cases x)
    case None
    then show ?thesis
      using iteration_after_read [of pf tk st st1 es1] r z
      by (simp add: sleeps_append sleeps_simps)
  next
    case (Some e)
    then show ?thesis
      using iteration_read_raises [of pf tk st st1 es1 e] r z
      by (simp add: sleeps_append sleeps_simps)
  qed
qed

lemma run_Cons_ok:
  assumes "iteration pf tk st = (st1, es1, None)"
  shows "fst (run pf (tk # tks) st) = fst (run pf tks st1)"
    and "fst (snd (run pf (tk # tks) st)) = es1 @ fst (snd (run pf tks st1))"
    and "snd (snd (run pf (tk # tks) st)) = snd (snd (run pf tks st1))"
  using assms by (simp_all split: prod.splits)

lemma error_calls_Cons:
  "error_calls 20 (Sleep s # es) = error_calls 20 es"
  "error_calls 20 (Write gpu_display f # es) = error_calls 20 es"
  "error_calls 20 (Write cpu_display (error_frame 20) # es) = Suc (error_calls 20 es)"
  using displays_differ by (simp_all add: error_calls_def)

lemma run_total: "snd (snd (run pf tks st)) = None \<and> sleeps (fst (snd (run pf tks st))) = length tks"
proof (induction tks arbitrary: st)
  case Nil
  show ?case by (simp add: sleeps_simps)
next
  case (Cons tk tks)
  obtain st1 es1 x where i: "iteration pf tk st = (st1, es1, x)"
    by (cases "iteration pf tk st") auto
  have x: "x = None"
    using iteration_no_raise [of pf tk st] i by simp
  have s: "sleeps es1 = 1"
    using iteration_sleeps [of pf tk st] i by simp
  show ?case
    using Cons.IH [of st1] run_Cons_ok [OF i [unfolded x], of tks] s
    by (simp add: sleeps_append)
qed

lemma iteration_idle:
  assumes "poll tk = None"
  shows "iteration pf tk st =
     (if \<not> error_shown st \<and> t_check tk - last_data_time st > 10
      then (st\<lparr>error_shown := True\<rparr>,
            [Write cpu_display (error_frame 20), Write gpu_display (error_frame 20),
             Sleep (1 / 10)], None)
      else (st, [Sleep (1 / 10)], None))"
proof -
  have "read_step pf tk st = (st, [], None)"
    using assms by (simp add: read_step_def)
  from iteration_after_read [OF this] show ?thesis by simp
qed

lemma error_calls_simps:
  "error_calls 20 [Write cpu_display (error_frame 20), Write gpu_display (error_frame 20), Sleep s] = 1"
  "error_calls 20 [Write cpu_display (error_frame 99), Write gpu_display (error_frame 99), Sleep s] = 0"
  using displays_differ error_frame_other by (simp_all add: error_calls_def)

lemma idle_run_latched:
  assumes "\<forall>tk \<in> set tks. poll tk = None" "error_shown st"
  shows "error_calls 20 (fst (snd (run pf tks st))) = 0"
  using assms
proof (induction tks arbitrary: st)
  case Nil
  show ?case by (simp add: error_calls_frames)
next
  case (Cons tk tks)
  have i: "iteration pf tk st = (st, [Sleep (1 / 10)], None)"
    using iteration_idle [of tk pf st] Cons.prems by simp
  show ?case
    using Cons.IH [of st] Cons.prems run_Cons_ok(2) [OF i, of tks]
    by (simp add: error_calls_Cons)
qed

lemma idle_run_once:
  assumes "\<forall>tk \<in> set tks. poll tk = None" "\<not> error_shown st"
  shows "error_calls 20 (fst (snd (run pf tks st))) =
           (if \<exists>tk \<in> set tks. t_check tk - last_data_time st > 10 then 1 else 0)"
  using assms
proof (induction tks arbitrary: st)
  case Nil
  show ?case by (simp add: error_calls_frames)
next
  case (Cons tk tks)
  have idle: "\<forall>tk \<in> set tks. poll tk = None" "poll tk = None"
    using Cons.prems by simp_all
  show ?case
  proof (cases "t_check tk - last_data_time st > 10")
    case True
    have i: "iteration pf tk st =
        (st\<lparr>error_shown := True\<rparr>,
         [Write cpu_display (error_frame 20), Write gpu_display (error_frame 20),
          Sleep (1 / 10)], None)"
      using iteration_idle [OF idle(2), of pf st] Cons.prems True by simp
    have "error_calls 20 (fst (snd (run pf tks (st\<lparr>error_shown := True\<rparr>)))) = 0"
      using idle_run_latched [OF idle(1)] by simp
    then show ?thesis
      using run_Cons_ok(2) [OF i, of tks] True by (simp add: error_calls_Cons)
  next
    case False
    have i: "iteration pf tk st = (st, [Sleep (1 / 10)], None)"
      using iteration_idle [OF idle(2), of pf st] False by simp
    show ?thesis
      using Cons.IH [OF idle(1) Cons.prems(2)] run_Cons_ok(2) [OF i, of tks] False
      by (simp add: error_calls_Cons)
  qed
qed

lemma example_splits:
  "split_str CHR '','' ''45.0,62.0'' = [''45.0'', ''62.0'']"
  "split_str CHR '','' ''99.75,62.0'' = [''99.75'', ''62.0'']"
  "split_str CHR '','' ''abc,62.0'' = [''abc'', ''62.0'']"
  by simp_all

lemma example_fields:
  "parse_field example_float [''45.0'', ''62.0''] 0 = Inr (Finite 45)"
  "parse_field example_float [''45.0'', ''62.0''] 1 = Inr (Finite 62)"
  "parse_field example_float [''99.75'', ''62.0''] 0 = Inr (Finite (399 / 4))"
  "parse_field example_float [''99.75'', ''62.0''] 1 = Inr (Finite 62)"
  by (simp_all add: parse_field_def getitem_def example_float_def)

lemma example_round: "round_half_even 45 = 45" "round_half_even 62 = 62"
  by (simp_all add: round_half_even_def)

lemma example_frames:
  "display_temp cpu_display (Finite 45) = ([Write cpu_display [0, 102, 109, 57]], None)"
  "display_temp gpu_display (Finite 62) = ([Write gpu_display [0, 125, 91, 57]], None)"
  "display_temp cpu_display (Finite (399 / 4)) = ([], Some IndexError)"
  using display_temp_two_digits [of 45 cpu_display] display_temp_two_digits [of 62 gpu_display]
    display_temp_index_error [of "399 / 4" cpu_display]
  by (simp_all add: example_round DIGITS_def C_def ok_def raise_def)

lemma example_update:
  "read_step example_float \<lparr>poll = Some ''45.0,62.0'', t_update = 12, t_check = 12\<rparr>
       \<lparr>last_data_time = 0, error_shown = True\<rparr> =
     (\<lparr>last_data_time = 12, error_shown = False\<rparr>,
      [Write cpu_display [0, 102, 109, 57], Write gpu_display [0, 125, 91, 57]], None)"
  by (simp add: read_step_def handle_line_value update_value example_splits example_fields
      example_frames)

lemma example_updated:
  "updated example_float \<lparr>poll = Some ''45.0,62.0'', t_update = 12, t_check = 12\<rparr>"
  by (simp add: updated_def example_splits example_fields example_frames)

lemma example_raise:
  "read_step example_float \<lparr>poll = Some ''99.75,62.0'', t_update = 11, t_check = 11\<rparr>
       \<lparr>last_data_time = 0, error_shown = False\<rparr> =
     (\<lparr>last_data_time = 0, error_shown = False\<rparr>, [], Some IndexError)"
  by (simp add: read_step_def handle_line_value update_value example_splits example_fields
      example_frames)

lemma iteration_checked:
  assumes "read_step pf tk st = (st1, es1, None)"
  shows "error_calls 20 (fst (snd (iteration pf tk st))) =
           (if \<not> error_shown st1 \<and> t_check tk - last_data_time st1 > 10 then 1 else 0)"
    and "error_shown (fst (iteration pf tk st)) =
           (error_shown st1 \<or> t_check tk - last_data_time st1 > 10)"
    and "last_data_time (fst (iteration pf tk st)) = last_data_time st1"
proof -
  have z: "error_calls 20 es1 = 0"
    using read_step_events [OF assms] by simp
  note i = iteration_after_read [OF assms]
  show "error_calls 20 (fst (snd (iteration pf tk st))) =
           (if \<not> error_shown st1 \<and> t_check tk - last_data_time st1 > 10 then 1 else 0)"
    using z by (simp add: i error_calls_append error_calls_simps error_calls_frames)
  show "error_shown (fst (iteration pf tk st)) =
           (error_shown st1 \<or> t_check tk - last_data_time st1 > 10)"
    by (auto simp: i)
  show "last_data_time (fst (iteration pf tk st)) = last_data_time st1"
    by (simp add: i)
qed

lemma latch_cleared_by_update:
  assumes "error_shown st" "\<not> error_shown (fst (iteration pf tk st))"
  shows "updated pf tk \<and> last_data_time (fst (iteration pf tk st)) = t_update tk"
proof -
  obtain st1 es1 x where r: "read_step pf tk st = (st1, es1, x)"
    by (cases "read_step pf tk st") auto
  have keep: "error_shown st1 \<longrightarrow> error_shown (fst (iteration pf tk st))"
  proof (cases x)
    case None
    then show ?thesis
      using iteration_checked(2) [of pf tk st st1 es1] r by simp
  next
    case (Some e)
    then show ?thesis
      using iteration_read_raises [of pf tk st st1 es1 e] r by simp
  qed
  have u: "updated pf tk"
  proof (rule ccontr)
    assume "\<not> updated pf tk"
    from read_step_not_updated [OF this r] have "error_shown st1"
      using assms(1) by auto
    then show False
      using keep assms(2) by simp
  qed
  from read_step_updated [OF u, of st] r
  have st1: "st1 = st\<lparr>last_data_time := t_update tk, error_shown := False\<rparr>" and x: "x = None"
    by simp_all
  have "last_data_time (fst (iteration pf tk st)) = last_data_time st1"
    using iteration_checked(3) [of pf tk st st1 es1] r x by simp
  then show ?thesis
    using u st1 by simp
qed

section \<open>The main loop: errors, timeout and the outer handler\<close>

text \<open>
  C5, as amended. On an iteration whose line processing lets no exception out, error 20
  is put on the displays exactly when, after the line processing, the latch is clear
  and the timeout check reads a time more than 10 seconds past the session clock; the
  latch is set by it and the clock is left as it was. Over any run of idle iterations
  the error is therefore shown once if the latch was clear and the silence is exceeded
  at some iteration, and not at all otherwise. A latch that was set is clear after an
  iteration only when that iteration made a successful update, which also moved the
  session clock to the time of the update.
\<close>

theorem timeout_once_per_silence:
  "(read_step pf tk st = (st1, es1, None) \<longrightarrow>
      error_calls 20 (fst (snd (iteration pf tk st))) =
        (if \<not> error_shown st1 \<and> t_check tk - last_data_time st1 > 10 then 1 else 0)
      \<and> error_shown (fst (iteration pf tk st)) =
          (error_shown st1 \<or> t_check tk - last_data_time st1 > 10)
      \<and> last_data_time (fst (iteration pf tk st)) = last_data_time st1)
   \<and> (poll tk = None \<longrightarrow> read_step pf tk st = (st, [], None))
   \<and> ((\<forall>tk \<in> set tks. poll tk = None) \<longrightarrow>
        error_calls 20 (fst (snd (run pf tks st))) =
          (if \<not> error_shown st \<and> (\<exists>tk \<in> set tks. t_check tk - last_data_time st > 10)
           then 1 else 0))
   \<and> (error_shown st \<and> \<not> error_shown (fst (iteration pf tk st)) \<longrightarrow>
        updated pf tk \<and> last_data_time (fst (iteration pf tk st)) = t_update tk)
   \<and> (updated pf tk \<longrightarrow>
        fst (read_step pf tk st) = st\<lparr>last_data_time := t_update tk, error_shown := False\<rparr>)"
proof (intro conjI impI)
  assume idle: "\<forall>tk \<in> set tks. poll tk = None"
  show "error_calls 20 (fst (snd (run pf tks st))) =
          (if \<not> error_shown st \<and> (\<exists>tk \<in> set tks. t_check tk - last_data_time st > 10)
           then 1 else 0)"
  proof (cases "error_shown st")
    case True
    then show ?thesis
      using idle_run_latched [OF idle, of st pf] by simp
  next
    case False
    then show ?thesis
      using idle_run_once [OF idle, of st pf] by simp
  qed
next
  assume "poll tk = None"
  then show "read_step pf tk st = (st, [], None)"
    by (simp add: read_step_def)
next
  assume "updated pf tk"
  then show "fst (read_step pf tk st) = st\<lparr>last_data_time := t_update tk, error_shown := False\<rparr>"
    using read_step_updated [of pf tk st] by simp
next
  assume "error_shown st \<and> \<not> error_shown (fst (iteration pf tk st))"
  then have l: "updated pf tk \<and> last_data_time (fst (iteration pf tk st)) = t_update tk"
    using latch_cleared_by_update [of st pf tk] by simp
  show "updated pf tk" using l by simp
  show "last_data_time (fst (iteration pf tk st)) = t_update tk" using l by simp
qed (erule iteration_checked)+

theorem timeout_once_per_silence_witness:
  "read_step example_float \<lparr>poll = None, t_update = 11, t_check = 11\<rparr>
       \<lparr>last_data_time = 0, error_shown = False\<rparr> =
     (\<lparr>last_data_time = 0, error_shown = False\<rparr>, [], None)
   \<and> error_calls 20 (fst (snd (iteration example_float
         \<lparr>poll = None, t_update = 11, t_check = 11\<rparr>
         \<lparr>last_data_time = 0, error_shown = False\<rparr>))) = 1
   \<and> error_shown (fst (iteration example_float
         \<lparr>poll = None, t_update = 11, t_check = 11\<rparr>
         \<lparr>last_data_time = 0, error_shown = False\<rparr>))
   \<and> error_calls 20 (fst (snd (run example_float
         [\<lparr>poll = None, t_update = 5, t_check = 5\<rparr>,
          \<lparr>poll = None, t_update = 11, t_check = 11\<rparr>,
          \<lparr>poll = None, t_update = 12, t_check = 12\<rparr>]
         \<lparr>last_data_time = 0, error_shown = False\<rparr>))) = 1
   \<and> error_shown \<lparr>last_data_time = 0, error_shown = True\<rparr>
   \<and> \<not> error_shown (fst (iteration example_float
         \<lparr>poll = Some ''45.0,62.0'', t_update = 12, t_check = 12\<rparr>
         \<lparr>last_data_time = 0, error_shown = True\<rparr>))
   \<and> updated example_float \<lparr>poll = Some ''45.0,62.0'', t_update = 12, t_check = 12\<rparr>
   \<and> last_data_time (fst (iteration example_float
         \<lparr>poll = Some ''45.0,62.0'', t_update = 12, t_check = 12\<rparr>
         \<lparr>last_data_time = 0, error_shown = True\<rparr>)) = 12"
proof -
  let ?st = "\<lparr>last_data_time = 0, error_shown = False\<rparr>"
  let ?latched = "\<lparr>last_data_time = 0, error_shown = True\<rparr>"
  let ?i5 = "\<lparr>poll = None, t_update = 5, t_check = 5\<rparr>"
  let ?i11 = "\<lparr>poll = None, t_update = 11, t_check = 11\<rparr>"
  let ?i12 = "\<lparr>poll = None, t_update = 12, t_check = 12\<rparr>"
  let ?up = "\<lparr>poll = Some ''45.0,62.0'', t_update = 12, t_check = 12\<rparr>"
  have r: "read_step example_float ?i11 ?st = (?st, [], None)"
    by (simp add: read_step_def)
  note one = timeout_once_per_silence [of example_float ?i11 ?st ?st "[]" "[?i5, ?i11, ?i12]",
      THEN conjunct1, rule_format, OF r]
  have a: "error_calls 20 (fst (snd (iteration example_float ?i11 ?st))) = 1"
    using one by simp
  have b: "error_shown (fst (iteration example_float ?i11 ?st))"
    using one by simp
  have c: "error_calls 20 (fst (snd (run example_float [?i5, ?i11, ?i12] ?st))) = 1"
    using timeout_once_per_silence [of example_float ?i11 ?st ?st "[]" "[?i5, ?i11, ?i12]",
      THEN conjunct2, THEN conjunct2, THEN conjunct1]
    by simp
  have cleared: "\<not> error_shown (fst (iteration example_float ?up ?latched))"
    using iteration_after_read [OF example_update] by simp
  have d: "updated example_float ?up
      \<and> last_data_time (fst (iteration example_float ?up ?latched)) = 12"
    using timeout_once_per_silence [of example_float ?up ?latched ?st "[]" "[]",
      THEN conjunct2, THEN conjunct2, THEN conjunct2, THEN conjunct1] cleared
    by simp
  show ?thesis
    using r a b c cleared d by simp
qed

text \<open>
  C5 as stated fails on an iteration that ends in the outer handler: with the latch
  clear and 11 seconds of silence, the line \<open>99.75,62.0\<close> makes \<open>display_temp\<close> raise,
  the timeout check is skipped and error 99 is shown instead of error 20.
\<close>

theorem timeout_skipped_counterexample:
  "\<not> error_shown \<lparr>last_data_time = 0, error_shown = False\<rparr>
   \<and> t_check \<lparr>poll = Some ''99.75,62.0'', t_update = 11, t_check = 11\<rparr>
       - last_data_time \<lparr>last_data_time = 0, error_shown = False\<rparr> > 10
   \<and> iteration example_float \<lparr>poll = Some ''99.75,62.0'', t_update = 11, t_check = 11\<rparr>
       \<lparr>last_data_time = 0, error_shown = False\<rparr> =
     (\<lparr>last_data_time = 0, error_shown = False\<rparr>,
      [Write cpu_display (error_frame 99), Write gpu_display (error_frame 99), Sleep 1], None)
   \<and> error_calls 20
       (fst (snd (iteration example_float
          \<lparr>poll = Some ''99.75,62.0'', t_update = 11, t_check = 11\<rparr>
          \<lparr>last_data_time = 0, error_shown = False\<rparr>))) = 0"
  using iteration_read_raises [OF example_raise]
  by (simp add: error_calls_simps)

text \<open>
  C6. For a non-empty line: without a separator the iteration shows error 11 on both
  displays; with a separator and a first or second field that \<open>float\<close> rejects it shows
  error 10 on both. In both cases the latch is set, the session clock keeps its value,
  and the iteration ends with its 0.1 second sleep and no timeout error.
\<close>

theorem input_errors:
  assumes "poll tk = Some line" "line \<noteq> []"
  shows "(CHR '','' \<notin> set line \<longrightarrow>
            iteration pf tk st =
              (st\<lparr>error_shown := True\<rparr>,
               [Write cpu_display (error_frame 11), Write gpu_display (error_frame 11),
                Sleep (1 / 10)], None))
         \<and> (CHR '','' \<in> set line \<and>
              (pf (split_str CHR '','' line ! 0) = None \<or> pf (split_str CHR '','' line ! 1) = None) \<longrightarrow>
            iteration pf tk st =
              (st\<lparr>error_shown := True\<rparr>,
               [Write cpu_display (error_frame 10), Write gpu_display (error_frame 10),
                Sleep (1 / 10)], None))
         \<and> error_shown (st\<lparr>error_shown := True\<rparr>)
         \<and> last_data_time (st\<lparr>error_shown := True\<rparr>) = last_data_time st
         \<and> error_frame 11 = [E, DASH, DIGITS ! 1, DIGITS ! 1]
         \<and> error_frame 10 = [E, DASH, DIGITS ! 1, DIGITS ! 0]"
proof (intro conjI impI)
  assume "CHR '','' \<notin> set line"
  from iteration_latched_read [OF read_no_separator [OF assms this]]
  show "iteration pf tk st =
      (st\<lparr>error_shown := True\<rparr>,
       [Write cpu_display (error_frame 11), Write gpu_display (error_frame 11),
        Sleep (1 / 10)], None)"
    by simp
next
  assume a: "CHR '','' \<in> set line \<and>
      (pf (split_str CHR '','' line ! 0) = None \<or> pf (split_str CHR '','' line ! 1) = None)"
  from iteration_latched_read [OF read_parse_fails [OF assms(1) conjunct1 [OF a] conjunct2 [OF a]]]
  show "iteration pf tk st =
      (st\<lparr>error_shown := True\<rparr>,
       [Write cpu_display (error_frame 10), Write gpu_display (error_frame 10),
        Sleep (1 / 10)], None)"
    by simp
qed (simp_all add: error_frame_def)

theorem input_errors_witness:
  "poll \<lparr>poll = Some ''45.0'', t_update = 5, t_check = 5\<rparr> = Some ''45.0'' \<and> ''45.0'' \<noteq> []
   \<and> CHR '','' \<notin> set ''45.0''
   \<and> iteration example_float \<lparr>poll = Some ''45.0'', t_update = 5, t_check = 5\<rparr>
        \<lparr>last_data_time = 3, error_shown = False\<rparr> =
       (\<lparr>last_data_time = 3, error_shown = True\<rparr>,
        [Write cpu_display [121, 64, 6, 6], Write gpu_display [121, 64, 6, 6], Sleep (1 / 10)],
        None)
   \<and> CHR '','' \<in> set ''abc,62.0''
   \<and> example_float (split_str CHR '','' ''abc,62.0'' ! 0) = None
   \<and> iteration example_float \<lparr>poll = Some ''abc,62.0'', t_update = 5, t_check = 5\<rparr>
        \<lparr>last_data_time = 3, error_shown = False\<rparr> =
       (\<lparr>last_data_time = 3, error_shown = True\<rparr>,
        [Write cpu_display [121, 64, 6, 63], Write gpu_display [121, 64, 6, 63], Sleep (1 / 10)],
        None)"
proof -
  have f: "error_frame 11 = [121, 64, 6, 6]" "error_frame 10 = [121, 64, 6, 63]"
    by (simp_all add: error_frame_def E_def DASH_def DIGITS_def)
  have n: "example_float (split_str CHR '','' ''abc,62.0'' ! 0) = None"
    by (simp add: example_float_def)
  have a: "iteration example_float \<lparr>poll = Some ''45.0'', t_update = 5, t_check = 5\<rparr>
        \<lparr>last_data_time = 3, error_shown = False\<rparr> =
       (\<lparr>last_data_time = 3, error_shown = True\<rparr>,
        [Write cpu_display [121, 64, 6, 6], Write gpu_display [121, 64, 6, 6], Sleep (1 / 10)],
        None)"
    using input_errors [of "\<lparr>poll = Some ''45.0'', t_update = 5, t_check = 5\<rparr>" "''45.0''"
        example_float "\<lparr>last_data_time = 3, error_shown = False\<rparr>"]
    by (simp add: f)
  have b: "iteration example_float \<lparr>poll = Some ''abc,62.0'', t_update = 5, t_check = 5\<rparr>
        \<lparr>last_data_time = 3, error_shown = False\<rparr> =
       (\<lparr>last_data_time = 3, error_shown = True\<rparr>,
        [Write cpu_display [121, 64, 6, 63], Write gpu_display [121, 64, 6, 63], Sleep (1 / 10)],
        None)"
    using input_errors [of "\<lparr>poll = Some ''abc,62.0'', t_update = 5, t_check = 5\<rparr>"
        "''abc,62.0''" example_float "\<lparr>last_data_time = 3, error_shown = False\<rparr>"] n
    by (simp add: f)
  show ?thesis
    using a b n by simp
qed

text \<open>
  C9. No iteration lets an exception out. When the body of the \<open>try\<close> raises, the
  iteration shows error 99 on both displays, sleeps 1 second and returns normally, in
  the state the body had reached. So a run over any sequence of inputs never stops
  with an exception and performs every one of its iterations, each ending in its one
  sleep.
\<close>

theorem loop_never_raises:
  "snd (snd (iteration pf tk st)) = None
   \<and> (body pf tk st = (st1, es1, Some e) \<longrightarrow>
        iteration pf tk st =
          (st1, es1 @ [Write cpu_display (error_frame 99), Write gpu_display (error_frame 99),
                       Sleep 1], None))
   \<and> (body pf tk st = (st1, es1, None) \<longrightarrow> iteration pf tk st = (st1, es1, None))
   \<and> snd (snd (run pf tks st)) = None
   \<and> sleeps (fst (snd (run pf tks st))) = length tks
   \<and> error_frame 99 = [E, DASH, DIGITS ! 9, DIGITS ! 9]"
  using iteration_no_raise [of pf tk st] run_total [of pf tks st]
  by (simp add: iteration_of_body error_frame_def)

theorem loop_never_raises_witness:
  "body example_float \<lparr>poll = Some ''99.75,62.0'', t_update = 11, t_check = 11\<rparr>
       \<lparr>last_data_time = 0, error_shown = False\<rparr> =
     (\<lparr>last_data_time = 0, error_shown = False\<rparr>, [], Some IndexError)
   \<and> iteration example_float \<lparr>poll = Some ''99.75,62.0'', t_update = 11, t_check = 11\<rparr>
       \<lparr>last_data_time = 0, error_shown = False\<rparr> =
     (\<lparr>last_data_time = 0, error_shown = False\<rparr>,
      [Write cpu_display [121, 64, 111, 111], Write gpu_display [121, 64, 111, 111], Sleep 1],
      None)
   \<and> body example_float \<lparr>poll = None, t_update = 1, t_check = 1\<rparr>
       \<lparr>last_data_time = 0, error_shown = False\<rparr> =
     (\<lparr>last_data_time = 0, error_shown = False\<rparr>, [Sleep (1 / 10)], None)
   \<and> iteration example_float \<lparr>poll = None, t_update = 1, t_check = 1\<rparr>
       \<lparr>last_data_time = 0, error_shown = False\<rparr> =
     (\<lparr>last_data_time = 0, error_shown = False\<rparr>, [Sleep (1 / 10)], None)"
proof -
  let ?st = "\<lparr>last_data_time = 0, error_shown = False\<rparr>"
  let ?bad = "\<lparr>poll = Some ''99.75,62.0'', t_update = 11, t_check = 11\<rparr>"
  let ?idle = "\<lparr>poll = None, t_update = 1, t_check = 1\<rparr>"
  have f: "error_frame 99 = [121, 64, 111, 111]"
    by (simp add: error_frame_def E_def DASH_def DIGITS_def)
  have b1: "body example_float ?bad ?st = (?st, [], Some IndexError)"
    by (rule body_read_raises [OF example_raise])
  have r: "read_step example_float ?idle ?st = (?st, [], None)"
    by (simp add: read_step_def)
  have b2: "body example_float ?idle ?st = (?st, [Sleep (1 / 10)], None)"
    using body_after_read [OF r] by simp
  have i1: "iteration example_float ?bad ?st =
      (?st, [Write cpu_display [121, 64, 111, 111], Write gpu_display [121, 64, 111, 111],
             Sleep 1], None)"
    using loop_never_raises [of example_float ?bad ?st ?st "[]" IndexError] b1
    by (simp add: f)
  have i2: "iteration example_float ?idle ?st = (?st, [Sleep (1 / 10)], None)"
    using loop_never_raises [of example_float ?idle ?st ?st "[Sleep (1 / 10)]"] b2
    by simp
  show ?thesis
    using b1 b2 i1 i2 by simp
qed

end
